theory Spec2Isabelle
  imports Main "HOL-Library.AList"
begin

section \<open>JSON documents and JavaScript objects\<close>

text \<open>
  A parsed JSON value. An object is the list of its own properties in the order in which
  \<^verbatim>\<open>Object.entries\<close> enumerates them. The program never computes with numbers, which are
  kept as integers. Inherited properties (those of \<^verbatim>\<open>Object.prototype\<close>) are not part of the
  model, and neither is the reordering of integer-like property names. Strings are lists of
  bytes, which are the characters of JavaScript for ASCII text.
\<close>

datatype json =
    JNull
  | JBool bool
  | JNum int
  | JStr string
  | JArr "json list"
  | JObj "(string \<times> json) list"

text \<open>\<^verbatim>\<open>Record<string, string>\<close>: a flat object, again as its list of properties.\<close>

type_synonym flat = "(string \<times> json) list"

text \<open>Exceptions and promise rejections.\<close>

datatype error =
    TypeError
  | SyntaxError
  | ENOENT
  | ENOTDIR
  | EISDIR
  | CapabilityFailure

text \<open>\<^verbatim>\<open>typeof val === 'object' && val !== null\<close>: true of objects and of arrays.\<close>

fun is_object :: "json \<Rightarrow> bool" where
  "is_object (JArr xs) = True"
| "is_object (JObj kvs) = True"
| "is_object _ = False"

subsection \<open>Strings\<close>

text \<open>\<^verbatim>\<open>String(i)\<close> for an array index.\<close>

definition digit_char :: "nat \<Rightarrow> char" where
  "digit_char d = ''0123456789'' ! (d mod 10)"

function show_nat :: "nat \<Rightarrow> string" where
  "show_nat n = (if n < 10 then [digit_char n] else show_nat (n div 10) @ [digit_char (n mod 10)])"
  by pat_completeness auto
termination
  by (relation "measure id") auto

declare show_nat.simps [simp del]

text \<open>
  \<^verbatim>\<open>s.split(sep)\<close> for a non-empty separator: the pieces between the occurrences of \<open>sep\<close>,
  found from left to right. After a match the remaining characters of the separator are
  skipped (\<open>skip\<close>); \<open>cur\<close> is the piece under construction, reversed.
\<close>

definition starts_with :: "string \<Rightarrow> string \<Rightarrow> bool" where
  "starts_with s p = (take (length p) s = p)"

fun split_go :: "string \<Rightarrow> nat \<Rightarrow> string \<Rightarrow> string \<Rightarrow> string list" where
  "split_go sep skip cur [] = [rev cur]"
| "split_go sep skip cur (c # cs) =
     (if 0 < skip then split_go sep (skip - 1) cur cs
      else if starts_with (c # cs) sep then rev cur # split_go sep (length sep - 1) [] cs
      else split_go sep 0 (c # cur) cs)"

definition js_split :: "string \<Rightarrow> string \<Rightarrow> string list" where
  "js_split sep s = split_go sep 0 [] s"

text \<open>\<^verbatim>\<open>parts.join(sep)\<close>.\<close>

fun js_join :: "string \<Rightarrow> string list \<Rightarrow> string" where
  "js_join sep [] = []"
| "js_join sep [x] = x"
| "js_join sep (x # y # ys) = x @ sep @ js_join sep (y # ys)"

text \<open>\<^verbatim>\<open>s.trim()\<close>, on the white space of ASCII (tab, line feed, vertical tab, form feed,
  carriage return, space).\<close>

definition is_space :: "char \<Rightarrow> bool" where
  "is_space c = (c = CHR '' '' \<or> (9 \<le> (of_char c :: nat) \<and> (of_char c :: nat) \<le> 13))"

definition trim :: "string \<Rightarrow> string" where
  "trim s = rev (dropWhile is_space (rev (dropWhile is_space s)))"

subsection \<open>flattenObject\<close>

text \<open>
  \<^verbatim>\<open>Object.entries(obj)\<close> for a value that is not null: the properties of an object, the
  elements of an array under their decimal indices, the characters of a string under theirs,
  nothing for a number or a boolean.
\<close>

fun index_entries :: "nat \<Rightarrow> 'a list \<Rightarrow> (string \<times> 'a) list" where
  "index_entries i [] = []"
| "index_entries i (x # xs) = (show_nat i, x) # index_entries (Suc i) xs"

fun entries_of :: "json \<Rightarrow> (string \<times> json) list" where
  "entries_of (JObj kvs) = kvs"
| "entries_of (JArr xs) = index_entries 0 xs"
| "entries_of (JStr s) = index_entries 0 (map (\<lambda>c. JStr [c]) s)"
| "entries_of _ = []"

text \<open>\<^verbatim>\<open>prefix ? `${prefix}.${key}` : key\<close>: the empty string is falsy.\<close>

definition newKey :: "string \<Rightarrow> string \<Rightarrow> string" where
  "newKey prefix key = (if prefix \<noteq> [] then prefix @ ''.'' @ key else key)"

text \<open>
  \<^verbatim>\<open>{...acc, ...extra}\<close>: the properties of \<open>extra\<close> are assigned to a copy of \<open>acc\<close> in order.
  An assignment \<^verbatim>\<open>o[k] = v\<close> is \<^const>\<open>AList.update\<close>: an existing property keeps its
  place, a new one goes last.
\<close>

definition spread :: "flat \<Rightarrow> flat \<Rightarrow> flat" where
  "spread acc extra = fold (\<lambda>(k, v). AList.update k v) extra acc"

lemma snd_index_entries: "map snd (index_entries i xs) = xs"
  by (induction xs arbitrary: i) auto

lemma sum_size_le_size_list: "sum_list (map size xs) \<le> size_list size xs"
  by (induction xs) auto

lemma sum_size_snd_le:
  "sum_list (map (size \<circ> snd) kvs) \<le> size_list (size_prod (\<lambda>_. 0) size) kvs"
  by (induction kvs) auto

lemma entries_of_weight:
  "is_object j \<Longrightarrow> sum_list (map (size \<circ> snd) (entries_of j)) < size j"
proof (cases j)
  case (JArr xs)
  have "map (size \<circ> snd) (index_entries 0 xs) = map size xs"
    using snd_index_entries [of 0 xs] by (metis map_map)
  then show ?thesis using JArr sum_size_le_size_list [of xs] by simp
next
  case (JObj kvs)
  then show ?thesis using sum_size_snd_le [of kvs] by simp
qed auto

text \<open>
  The \<^verbatim>\<open>reduce\<close> of \<^verbatim>\<open>flattenObject\<close> over the entries of a value, from the empty object.
  The recursive call is on a value that passed the guard, so on its entries.
\<close>

function flattenEntries :: "(string \<times> json) list \<Rightarrow> string \<Rightarrow> flat" where
  "flattenEntries es prefix =
     fold (\<lambda>(key, val) acc.
            let nk = newKey prefix key in
            if is_object val then spread acc (flattenEntries (entries_of val) nk)
            else AList.update nk val acc)
          es []"
  by pat_completeness auto
termination
proof (relation "measure (\<lambda>(es, p). sum_list (map (size \<circ> snd) es))", goal_cases)
  case 1
  show ?case by simp
next
  case (2 es prefix x key val nk)
  then have "(size \<circ> snd) x \<le> sum_list (map (size \<circ> snd) es)"
    using member_le_sum_list [of "(size \<circ> snd) x" "map (size \<circ> snd) es"] by auto
  moreover have "sum_list (map (size \<circ> snd) (entries_of val)) < size val"
    using 2 by (simp add: entries_of_weight)
  ultimately show ?case using 2 by auto
qed

declare flattenEntries.simps [simp del]

text \<open>
  \<^verbatim>\<open>flattenObject(obj, prefix)\<close>. \<^verbatim>\<open>Object.entries(null)\<close> raises a TypeError; the guard
  \<^verbatim>\<open>val !== null\<close> keeps the recursion away from it, so only the outermost call can raise.
\<close>

definition flattenObject :: "json \<Rightarrow> string \<Rightarrow> error + flat" where
  "flattenObject obj prefix =
     (if obj = JNull then Inl TypeError else Inr (flattenEntries (entries_of obj) prefix))"

subsection \<open>unflattenObject\<close>

text \<open>
  Modelled from the spec: \<^verbatim>\<open>set\<close> is the package lodash.set, which is not part of the
  sources. The specification describes what \<^verbatim>\<open>unflattenObject\<close> does with it as
  ``splitting each path on \<^verbatim>\<open>.\<close> and creating intermediate tree nodes as needed'': the path
  is split on dots; along the path an existing object is entered, and anything else (no
  property, or a value that is not a key-value node) is replaced by a fresh empty object;
  the last component is assigned. A value that is not an object is returned as it is.
  The package's bracket syntax (\<^verbatim>\<open>a[0]\<close>) and its creation of arrays for components that
  are array indices are outside this model.
\<close>

fun child_node :: "(string \<times> json) list \<Rightarrow> string \<Rightarrow> json" where
  "child_node kvs k = (case map_of kvs k of Some (JObj c) \<Rightarrow> JObj c | _ \<Rightarrow> JObj [])"

fun set_path :: "json \<Rightarrow> string list \<Rightarrow> json \<Rightarrow> json" where
  "set_path (JObj kvs) [k] v = JObj (AList.update k v kvs)"
| "set_path (JObj kvs) (k # k' # ks) v =
     JObj (AList.update k (set_path (child_node kvs k) (k' # ks) v) kvs)"
| "set_path obj path v = obj"

definition lodash_set :: "json \<Rightarrow> string \<Rightarrow> json \<Rightarrow> json" where
  "lodash_set obj path v = set_path obj (js_split ''.'' path) v"

definition unflattenObject :: "flat \<Rightarrow> json" where
  "unflattenObject fl = fold (\<lambda>(key, val) acc. lodash_set acc key val) fl (JObj [])"


section \<open>Locale names\<close>

text \<open>
  The regular expressions the pattern of \<^verbatim>\<open>isLocale\<close> is made of: character classes given
  by their ranges, sequence, alternative, and the empty word for the optional groups.
  \<open>Nothing\<close> matches no word; it only arises while matching.
\<close>

datatype rexp =
    Nothing
  | Eps
  | Class "(char \<times> char) list"
  | Seq rexp rexp
  | Alt rexp rexp

definition in_class :: "char \<Rightarrow> (char \<times> char) list \<Rightarrow> bool" where
  "in_class c ranges =
     list_ex (\<lambda>r. (of_char (fst r) :: nat) \<le> of_char c \<and> (of_char c :: nat) \<le> of_char (snd r)) ranges"

text \<open>\<^verbatim>\<open>(r)?\<close>, \<^verbatim>\<open>r{n}\<close> and \<^verbatim>\<open>r{m,n}\<close>.\<close>

definition Opt :: "rexp \<Rightarrow> rexp" where
  "Opt r = Alt r Eps"

fun Times :: "nat \<Rightarrow> rexp \<Rightarrow> rexp" where
  "Times 0 r = Eps"
| "Times (Suc n) r = Seq r (Times n r)"

fun AtMost :: "nat \<Rightarrow> rexp \<Rightarrow> rexp" where
  "AtMost 0 r = Eps"
| "AtMost (Suc n) r = Opt (Seq r (AtMost n r))"

definition Between :: "nat \<Rightarrow> nat \<Rightarrow> rexp \<Rightarrow> rexp" where
  "Between m n r = Seq (Times m r) (AtMost (n - m) r)"

text \<open>Matching a whole word (the pattern is anchored by \<^verbatim>\<open>^\<close> and \<^verbatim>\<open>$\<close>), by derivatives.\<close>

fun nullable :: "rexp \<Rightarrow> bool" where
  "nullable Nothing = False"
| "nullable Eps = True"
| "nullable (Class rs) = False"
| "nullable (Seq a b) = (nullable a \<and> nullable b)"
| "nullable (Alt a b) = (nullable a \<or> nullable b)"

fun deriv :: "char \<Rightarrow> rexp \<Rightarrow> rexp" where
  "deriv c Nothing = Nothing"
| "deriv c Eps = Nothing"
| "deriv c (Class rs) = (if in_class c rs then Eps else Nothing)"
| "deriv c (Seq a b) =
     (if nullable a then Alt (Seq (deriv c a) b) (deriv c b) else Seq (deriv c a) b)"
| "deriv c (Alt a b) = Alt (deriv c a) (deriv c b)"

fun matches :: "rexp \<Rightarrow> string \<Rightarrow> bool" where
  "matches r [] = nullable r"
| "matches r (c # cs) = matches (deriv c r) cs"

text \<open>\<^verbatim>\<open>/^[A-Za-z]{2,4}([_-][A-Za-z]{4})?([_-]([A-Za-z]{2}|[0-9]{3}))?$/\<close>\<close>

definition letter :: rexp where
  "letter = Class [(CHR ''A'', CHR ''Z''), (CHR ''a'', CHR ''z'')]"

definition digit :: rexp where
  "digit = Class [(CHR ''0'', CHR ''9'')]"

definition separator :: rexp where
  "separator = Class [(CHR ''_'', CHR ''_''), (CHR ''-'', CHR ''-'')]"

definition localePattern :: rexp where
  "localePattern =
     Seq (Between 2 4 letter)
       (Seq (Opt (Seq separator (Times 4 letter)))
            (Opt (Seq separator (Alt (Times 2 letter) (Times 3 digit)))))"

definition isLocale :: "string \<Rightarrow> bool" where
  "isLocale name = matches localePattern name"

text \<open>\<^verbatim>\<open>entries.filter(isLocale)\<close> in \<^verbatim>\<open>getAllMissingTranslations\<close>.\<close>

definition discoverLocales :: "string list \<Rightarrow> string list" where
  "discoverLocales entries = filter isLocale entries"

text \<open>
  The grammar of a locale tag in the words of the specification,
  \<^verbatim>\<open>language[-script][-region]\<close>: two to four letters, then optionally a separator and
  four letters, then optionally a separator and two letters or three digits. The
  separators allowed are a parameter: the specification writes the hyphen.
\<close>

definition letters :: "string \<Rightarrow> bool" where
  "letters s = list_all (\<lambda>c. in_class c [(CHR ''A'', CHR ''Z''), (CHR ''a'', CHR ''z'')]) s"

definition digits :: "string \<Rightarrow> bool" where
  "digits s = list_all (\<lambda>c. in_class c [(CHR ''0'', CHR ''9'')]) s"

definition is_script :: "string \<Rightarrow> string \<Rightarrow> bool" where
  "is_script seps x = (case x of [] \<Rightarrow> False | c # t \<Rightarrow> c \<in> set seps \<and> length t = 4 \<and> letters t)"

definition is_region :: "string \<Rightarrow> string \<Rightarrow> bool" where
  "is_region seps x =
     (case x of [] \<Rightarrow> False
      | c # t \<Rightarrow> c \<in> set seps \<and> ((length t = 2 \<and> letters t) \<or> (length t = 3 \<and> digits t)))"

definition tag_tail :: "string \<Rightarrow> string \<Rightarrow> bool" where
  "tag_tail seps r =
     (r = [] \<or> is_script seps r \<or> is_region seps r
      \<or> (is_script seps (take 5 r) \<and> is_region seps (drop 5 r)))"

definition localeTag :: "string \<Rightarrow> string \<Rightarrow> bool" where
  "localeTag seps s =
     list_ex (\<lambda>n. n \<le> length s \<and> letters (take n s) \<and> tag_tail seps (drop n s)) [2, 3, 4]"


section \<open>The file system\<close>

text \<open>
  A path is the list of its segments from the working directory. The file system maps a
  path to a directory or to a file; a file holds a JSON document or text that
  \<^verbatim>\<open>JSON.parse\<close> rejects. The functions below are the operations of \<^verbatim>\<open>fs-extra\<close>,
  \<^verbatim>\<open>path\<close> and \<^verbatim>\<open>fast-glob\<close> that the program calls, on this representation.
\<close>

type_synonym path = "string list"

datatype content = Doc json | Unparsable

datatype node = File content | Dir

type_synonym filesystem = "(path \<times> node) list"

text \<open>The working directory, the empty path, is always there.\<close>

definition node_at :: "filesystem \<Rightarrow> path \<Rightarrow> node option" where
  "node_at fs p = (if p = [] then Some Dir else map_of fs p)"

text \<open>Awaiting a promise: a rejection is passed on.\<close>

definition await :: "error + 'a \<Rightarrow> ('a \<Rightarrow> error + 'b) \<Rightarrow> error + 'b" where
  "await r f = (case r of Inl e \<Rightarrow> Inl e | Inr x \<Rightarrow> f x)"

text \<open>\<^verbatim>\<open>Promise.all\<close> of promises that only read: all the values, or a rejection.\<close>

fun all_results :: "(error + 'a) list \<Rightarrow> error + 'a list" where
  "all_results [] = Inr []"
| "all_results (r # rs) = await r (\<lambda>x. await (all_results rs) (\<lambda>xs. Inr (x # xs)))"

definition pathExists :: "filesystem \<Rightarrow> path \<Rightarrow> bool" where
  "pathExists fs p = (node_at fs p \<noteq> None)"

definition readJson :: "filesystem \<Rightarrow> path \<Rightarrow> error + json" where
  "readJson fs p =
     (case node_at fs p of
        None \<Rightarrow> Inl ENOENT
      | Some Dir \<Rightarrow> Inl EISDIR
      | Some (File Unparsable) \<Rightarrow> Inl SyntaxError
      | Some (File (Doc j)) \<Rightarrow> Inr j)"

definition readdir :: "filesystem \<Rightarrow> path \<Rightarrow> error + string list" where
  "readdir fs p =
     (case node_at fs p of
        None \<Rightarrow> Inl ENOENT
      | Some (File c) \<Rightarrow> Inl ENOTDIR
      | Some Dir \<Rightarrow> Inr (map last (filter (\<lambda>q. q \<noteq> [] \<and> butlast q = p) (map fst fs))))"

fun is_file :: "node \<Rightarrow> bool" where
  "is_file (File c) = True"
| "is_file Dir = False"

definition ends_with :: "string \<Rightarrow> string \<Rightarrow> bool" where
  "ends_with s suffix = (drop (length s - length suffix) s = suffix)"

text \<open>
  \<^verbatim>\<open>fg.glob(`${folder}/**/*.json`)\<close>: the files below \<open>folder\<close>, at any depth, whose name
  ends in \<^verbatim>\<open>.json\<close>; by default the pattern matches no segment that begins with a dot.
\<close>

definition glob_json :: "filesystem \<Rightarrow> path \<Rightarrow> path list" where
  "glob_json fs folder =
     map fst (filter (\<lambda>(q, n). is_file n \<and> length folder < length q \<and> take (length folder) q = folder
                        \<and> list_all (\<lambda>seg. \<not> starts_with seg ''.'') (drop (length folder) q)
                        \<and> ends_with (last q) ''.json'') fs)"

text \<open>\<^verbatim>\<open>path.join\<close>: the segments of the argument are appended; empty segments and
  \<^verbatim>\<open>.\<close> are dropped and \<^verbatim>\<open>..\<close> removes the segment before it.\<close>

fun normalize :: "path \<Rightarrow> string list \<Rightarrow> path" where
  "normalize acc [] = acc"
| "normalize acc (seg # rest) =
     (if seg = [] \<or> seg = ''.'' then normalize acc rest
      else if seg = ''..'' then
        (if acc = [] \<or> last acc = ''..'' then normalize (acc @ [seg]) rest
         else normalize (butlast acc) rest)
      else normalize (acc @ [seg]) rest)"

definition path_join :: "path \<Rightarrow> string \<Rightarrow> path" where
  "path_join base s = normalize base (js_split ''/'' s)"

text \<open>\<^verbatim>\<open>path.relative(from, to)\<close> for a path \<open>to\<close> below \<open>from\<close>, as a string.\<close>

definition relative :: "path \<Rightarrow> path \<Rightarrow> string" where
  "relative from to = js_join ''/'' (drop (length from) to)"

definition dirname :: "path \<Rightarrow> path" where
  "dirname p = butlast p"

text \<open>\<^verbatim>\<open>fs.ensureDir\<close>: creates the directory and the missing directories above it; fails
  when a file is in the way.\<close>

definition ancestors :: "path \<Rightarrow> path list" where
  "ancestors p = map (\<lambda>n. take n p) [1..<Suc (length p)]"

definition ensureDir :: "filesystem \<Rightarrow> path \<Rightarrow> error + filesystem" where
  "ensureDir fs p =
     (if list_ex (\<lambda>q. case node_at fs q of Some (File c) \<Rightarrow> True | _ \<Rightarrow> False) (ancestors p)
      then Inl ENOTDIR
      else Inr (fold (\<lambda>q fs'. if pathExists fs' q then fs' else AList.update q Dir fs')
                  (ancestors p) fs))"

text \<open>\<^verbatim>\<open>fs.writeJson\<close>: the file holds the document afterwards.\<close>

definition writeJson :: "filesystem \<Rightarrow> path \<Rightarrow> json \<Rightarrow> error + filesystem" where
  "writeJson fs p j =
     (case node_at fs p of
        Some Dir \<Rightarrow> Inl EISDIR
      | _ \<Rightarrow> (case node_at fs (dirname p) of
                None \<Rightarrow> Inl ENOENT
              | Some (File c) \<Rightarrow> Inl ENOTDIR
              | Some Dir \<Rightarrow> Inr (AList.update p (File (Doc j)) fs)))"

section \<open>Missing keys\<close>

text \<open>\<^verbatim>\<open>difference\<close> of lodash: the elements of the first list that are not in the second.\<close>

definition difference :: "'a list \<Rightarrow> 'a list \<Rightarrow> 'a list" where
  "difference xs ys = filter (\<lambda>x. x \<notin> set ys) xs"

text \<open>\<^verbatim>\<open>`${relativePath}:::${key}`\<close>\<close>

definition compositeKey :: "string \<Rightarrow> string \<Rightarrow> string" where
  "compositeKey relativePath key = relativePath @ '':::'' @ key"

text \<open>\<^verbatim>\<open>Object.fromEntries\<close>\<close>

definition fromEntries :: "('k \<times> 'v) list \<Rightarrow> ('k \<times> 'v) list" where
  "fromEntries es = fold (\<lambda>(k, v). AList.update k v) es []"

text \<open>
  The callback of \<^verbatim>\<open>files.map\<close> in \<^verbatim>\<open>getMissingTranslationsForLocale\<close>, for one file of
  the reference locale. Every missing key is a property of \<open>refFlat\<close>, so
  \<^verbatim>\<open>refFlat[key]\<close> finds its value.
\<close>

definition fileMissing :: "filesystem \<Rightarrow> path \<Rightarrow> path \<Rightarrow> path \<Rightarrow> error + flat" where
  "fileMissing fs referenceFolder localeFolder refFilePath =
     (let relativePath = relative referenceFolder refFilePath in
      await (readJson fs refFilePath) (\<lambda>refJson.
      await (flattenObject refJson []) (\<lambda>refFlat.
        let targetFilePath = path_join localeFolder relativePath;
            exists = pathExists fs targetFilePath
        in await (if exists then readJson fs targetFilePath else Inr (JObj [])) (\<lambda>targetJson.
           await (flattenObject targetJson []) (\<lambda>targetFlat.
             let missingKeys = difference (map fst refFlat) (map fst targetFlat)
             in Inr (List.map_filter
                       (\<lambda>key. map_option (\<lambda>v. (compositeKey relativePath key, v)) (map_of refFlat key))
                       missingKeys))))))"

definition getMissingTranslationsForLocale :: "filesystem \<Rightarrow> path \<Rightarrow> path \<Rightarrow> error + flat" where
  "getMissingTranslationsForLocale fs referenceFolder localeFolder =
     (let files = glob_json fs referenceFolder in
      await (all_results (map (fileMissing fs referenceFolder localeFolder) files))
        (\<lambda>entryGroups. Inr (fromEntries (concat entryGroups))))"

definition getAllMissingTranslations ::
  "filesystem \<Rightarrow> path \<Rightarrow> string \<Rightarrow> error + (string \<times> flat) list" where
  "getAllMissingTranslations fs folderPath referenceLocale =
     await (readdir fs folderPath) (\<lambda>entries.
       let locales = discoverLocales entries;
           referenceFolder = path_join folderPath referenceLocale;
           referenceFiles = glob_json fs referenceFolder
       in await (all_results (map (\<lambda>filePath. await (readJson fs filePath) (\<lambda>json. flattenObject json []))
                                referenceFiles)) (\<lambda>flats.
            let referenceFlat = fold (\<lambda>obj acc. spread acc obj) flats []
            in await (all_results (map (\<lambda>locale.
                         if locale = referenceLocale then Inr None
                         else await (getMissingTranslationsForLocale fs referenceFolder
                                       (path_join folderPath locale))
                                (\<lambda>missing. Inr (Some (locale, missing))))
                       locales))
                 (\<lambda>settled. Inr (fold (\<lambda>r result. (case r of None \<Rightarrow> result
                                          | Some (locale, missing) \<Rightarrow> AList.update locale missing result))
                                   settled []))))"

section \<open>Translation\<close>

text \<open>
  The translation service is a parameter: from the request (the entries and the target
  locale, of which the program builds its prompt) to the text of the answer, or a failure.
  The state of a run is the file system, the lines written to the console, and the
  requests made to the service.
\<close>

type_synonym capability = "flat \<Rightarrow> string \<Rightarrow> error + string"

datatype message =
    NothingToTranslate string
  | DryRunHeader string
  | DryRunEntries flat
  | Translating nat string
  | Updated string nat

record world =
  files :: filesystem
  console :: "message list"
  requests :: "(flat \<times> string) list"

definition log :: "message \<Rightarrow> world \<Rightarrow> world" where
  "log m w = w\<lparr>console := console w @ [m]\<rparr>"

text \<open>The body of \<^verbatim>\<open>response.split('\n').forEach\<close> in \<^verbatim>\<open>translateWithGPT\<close>.\<close>

definition parseLine :: "string \<Rightarrow> (string \<times> string) list \<Rightarrow> (string \<times> string) list" where
  "parseLine line result =
     (case js_split '':'' line of
        [] \<Rightarrow> result
      | key # valParts \<Rightarrow>
          if key \<noteq> [] \<and> valParts \<noteq> []
          then AList.update (trim key) (trim (js_join '':'' valParts)) result
          else result)"

definition parseResponse :: "string \<Rightarrow> (string \<times> string) list" where
  "parseResponse response = fold parseLine (js_split [CHR 0x0A] response) []"

definition translateWithGPT ::
  "capability \<Rightarrow> flat \<Rightarrow> string \<Rightarrow> world \<Rightarrow> (error + (string \<times> string) list) \<times> world" where
  "translateWithGPT cap sourceTexts targetLocale w =
     (let w' = w\<lparr>requests := requests w @ [(sourceTexts, targetLocale)]\<rparr>
      in case cap sourceTexts targetLocale of
           Inl e \<Rightarrow> (Inl e, w')
         | Inr response \<Rightarrow> (Inr (parseResponse response), w'))"

text \<open>
  The callback of \<^verbatim>\<open>Object.entries(translated).map\<close> in \<^verbatim>\<open>translateMissingKeys\<close>, for
  one translated entry. When the key holds no \<^verbatim>\<open>:::\<close>, \<^verbatim>\<open>jsonKey\<close> is undefined and
  \<^verbatim>\<open>flat[jsonKey]\<close> is the property named \<^verbatim>\<open>undefined\<close>.
\<close>

definition writeTranslation ::
  "path \<Rightarrow> string \<Rightarrow> string \<times> string \<Rightarrow> filesystem \<Rightarrow> error + filesystem" where
  "writeTranslation folderPath locale entry fs =
     (case entry of (fullKey, translatedValue) \<Rightarrow>
      (case js_split '':::'' fullKey of
         [] \<Rightarrow> Inl TypeError
       | relativePath # others \<Rightarrow>
           let jsonKey = (case others of [] \<Rightarrow> ''undefined'' | k # ks \<Rightarrow> k);
               targetPath = path_join (path_join folderPath locale) relativePath;
               exists = pathExists fs targetPath
           in await (if exists then readJson fs targetPath else Inr (JObj [])) (\<lambda>json.
              await (flattenObject json []) (\<lambda>fl.
                let updated = unflattenObject (AList.update jsonKey (JStr translatedValue) fl)
                in await (ensureDir fs (dirname targetPath)) (\<lambda>fs'.
                   writeJson fs' targetPath updated)))))"

text \<open>
  Tasks that change the state are run one after the other, in the order of the list, and
  the run stops at the first that fails. The interleaving of the promises of
  \<^verbatim>\<open>Promise.all\<close> is not modelled.
\<close>

fun writeAll ::
  "path \<Rightarrow> string \<Rightarrow> (string \<times> string) list \<Rightarrow> filesystem \<Rightarrow> error option \<times> filesystem" where
  "writeAll folderPath locale [] fs = (None, fs)"
| "writeAll folderPath locale (entry # rest) fs =
     (case writeTranslation folderPath locale entry fs of
        Inl e \<Rightarrow> (Some e, fs)
      | Inr fs' \<Rightarrow> writeAll folderPath locale rest fs')"

text \<open>The callback of \<^verbatim>\<open>Object.entries(allMissing).map\<close>: the pipeline of one locale.\<close>

definition translateLocale ::
  "capability \<Rightarrow> path \<Rightarrow> bool \<Rightarrow> string \<times> flat \<Rightarrow> world \<Rightarrow> error option \<times> world" where
  "translateLocale cap folderPath dryRun item w =
     (case item of (locale, entries) \<Rightarrow>
      let total = length (map fst entries) in
      if total = 0 then (None, log (NothingToTranslate locale) w)
      else if dryRun then (None, log (DryRunEntries entries) (log (DryRunHeader locale) w))
      else
        (case translateWithGPT cap entries locale (log (Translating total locale) w) of
           (Inl e, w1) \<Rightarrow> (Some e, w1)
         | (Inr translated, w1) \<Rightarrow>
             (case writeAll folderPath locale translated (files w1) of
                (Some e, fs') \<Rightarrow> (Some e, w1\<lparr>files := fs'\<rparr>)
              | (None, fs') \<Rightarrow> (None, log (Updated locale total) (w1\<lparr>files := fs'\<rparr>)))))"

fun runLocales ::
  "capability \<Rightarrow> path \<Rightarrow> bool \<Rightarrow> (string \<times> flat) list \<Rightarrow> world \<Rightarrow> error option \<times> world" where
  "runLocales cap folderPath dryRun [] w = (None, w)"
| "runLocales cap folderPath dryRun (item # rest) w =
     (case translateLocale cap folderPath dryRun item w of
        (Some e, w') \<Rightarrow> (Some e, w')
      | (None, w') \<Rightarrow> runLocales cap folderPath dryRun rest w')"

definition translateMissingKeys ::
  "capability \<Rightarrow> path \<Rightarrow> string \<Rightarrow> bool \<Rightarrow> world \<Rightarrow> error option \<times> world" where
  "translateMissingKeys cap folderPath referenceLocale dryRun w =
     (case getAllMissingTranslations (files w) folderPath referenceLocale of
        Inl e \<Rightarrow> (Some e, w)
      | Inr allMissing \<Rightarrow> runLocales cap folderPath dryRun allMissing w)"

section \<open>A run of the tool on a small tree\<close>

text \<open>
  The reference locale \<^verbatim>\<open>fr\<close> holds \<^verbatim>\<open>common.json\<close> with \<^verbatim>\<open>{"a": {"b": "Bonjour"}}\<close>; the
  directory of the locale \<^verbatim>\<open>en\<close> is empty. The translation service answers with the
  line \<^verbatim>\<open>common.json:::a.b: Hello\<close>.
\<close>

definition scenario_files :: filesystem where
  "scenario_files =
     [([''locales''], Dir),
      ([''locales'', ''fr''], Dir),
      ([''locales'', ''fr'', ''common.json''],
         File (Doc (JObj [(''a'', JObj [(''b'', JStr ''Bonjour'')])]))),
      ([''locales'', ''en''], Dir)]"

definition scenario_world :: world where
  "scenario_world = \<lparr>files = scenario_files, console = [], requests = []\<rparr>"

definition scenario_capability :: capability where
  "scenario_capability entries locale = Inr ''common.json:::a.b: Hello''"


definition greeting_capability :: capability where
  "greeting_capability entries locale = Inr ''greeting: Hello''"

text \<open>A tree where the locale \<^verbatim>\<open>en\<close> has one of the two keys of \<^verbatim>\<open>common.json\<close> and no
  \<^verbatim>\<open>menu.json\<close>.\<close>

definition partial_files :: filesystem where
  "partial_files =
     [([''locales''], Dir),
      ([''locales'', ''fr''], Dir),
      ([''locales'', ''fr'', ''common.json''],
         File (Doc (JObj [(''a'', JObj [(''b'', JStr ''Bonjour''), (''c'', JStr ''Oui'')])]))),
      ([''locales'', ''fr'', ''menu.json''],
         File (Doc (JObj [(''open'', JStr ''Ouvrir'')]))),
      ([''locales'', ''en''], Dir),
      ([''locales'', ''en'', ''common.json''],
         File (Doc (JObj [(''a'', JObj [(''c'', JStr ''Yes'')])])))]"

section \<open>Notions for the statements and the proofs\<close>

text \<open>What a dry run prints for one locale: the map of its missing entries, or that
  nothing is missing.\<close>

definition dryRunReport :: "string \<times> flat \<Rightarrow> message list" where
  "dryRunReport item =
     (case item of (locale, entries) \<Rightarrow>
        if entries = [] then [NothingToTranslate locale]
        else [DryRunHeader locale, DryRunEntries entries])"

text \<open>The words that a regular expression matches, for the proofs about \<^const>\<open>matches\<close>.\<close>

fun lang :: "rexp \<Rightarrow> string set" where
  "lang Nothing = {}"
| "lang Eps = {[]}"
| "lang (Class rs) = {[c] | c. in_class c rs}"
| "lang (Seq a b) = {u @ v | u v. u \<in> lang a \<and> v \<in> lang b}"
| "lang (Alt a b) = lang a \<union> lang b"

text \<open>A file that holds a document other than null: the program can read and flatten it.\<close>

definition readable :: "filesystem \<Rightarrow> path \<Rightarrow> bool" where
  "readable fs p = (case readJson fs p of Inr j \<Rightarrow> j \<noteq> JNull | Inl e \<Rightarrow> False)"

text \<open>The flattened document of a file, as the program reads it; the empty map when
  the path holds no document.\<close>

definition flatAt :: "filesystem \<Rightarrow> path \<Rightarrow> flat" where
  "flatAt fs p =
     (case readJson fs p of
        Inr j \<Rightarrow> (case flattenObject j [] of Inr fl \<Rightarrow> fl | Inl e \<Rightarrow> [])
      | Inl e \<Rightarrow> [])"

text \<open>The file of a locale that goes with a file of the reference locale.\<close>

definition targetOf :: "path \<Rightarrow> path \<Rightarrow> path \<Rightarrow> path" where
  "targetOf referenceFolder localeFolder refFilePath =
     path_join localeFolder (relative referenceFolder refFilePath)"

text \<open>The entries of a reference file whose keys the file of the locale lacks, under
  their composite keys.\<close>

definition expectedMissing :: "filesystem \<Rightarrow> path \<Rightarrow> path \<Rightarrow> path \<Rightarrow> flat" where
  "expectedMissing fs referenceFolder localeFolder p =
     map (\<lambda>(k, v). (compositeKey (relative referenceFolder p) k, v))
       (filter (\<lambda>(k, v). k \<notin> fst ` set (flatAt fs (targetOf referenceFolder localeFolder p)))
          (flatAt fs p))"








text \<open>Reading a decimal numeral, to tell the indices of an array apart; for the proofs.\<close>

definition read_nat :: "string \<Rightarrow> nat" where
  "read_nat s = foldl (\<lambda>n c. 10 * n + (of_char c - 48)) 0 s"

text \<open>The function that \<^verbatim>\<open>reduce\<close> folds over the entries, named for the proofs.\<close>

definition flatten_step :: "string \<Rightarrow> string \<times> json \<Rightarrow> flat \<Rightarrow> flat" where
  "flatten_step prefix =
     (\<lambda>(key, val) acc.
        let nk = newKey prefix key in
        if is_object val then spread acc (flattenEntries (entries_of val) nk)
        else AList.update nk val acc)"

section \<open>Properties of flattenObject\<close>

lemma flattenEntries_fold: "flattenEntries es prefix = fold (flatten_step prefix) es []"
  unfolding flatten_step_def by (rule flattenEntries.simps)

lemma flatten_step_apply:
  "flatten_step prefix (key, val) acc =
     (if is_object val then spread acc (flattenEntries (entries_of val) (newKey prefix key))
      else AList.update (newKey prefix key) val acc)"
  by (simp add: flatten_step_def)

lemma update_scalar:
  "list_all (\<lambda>kv. \<not> is_object (snd kv)) acc \<Longrightarrow> \<not> is_object v \<Longrightarrow>
   list_all (\<lambda>kv. \<not> is_object (snd kv)) (AList.update k v acc)"
  by (induction acc) auto

lemma spread_scalar:
  "list_all (\<lambda>kv. \<not> is_object (snd kv)) acc \<Longrightarrow>
   list_all (\<lambda>kv. \<not> is_object (snd kv)) extra \<Longrightarrow>
   list_all (\<lambda>kv. \<not> is_object (snd kv)) (spread acc extra)"
  unfolding spread_def
  by (induction extra arbitrary: acc) (auto simp: update_scalar)

lemma fold_step_scalar:
  assumes "\<And>key val. (key, val) \<in> set es \<Longrightarrow> is_object val \<Longrightarrow>
             list_all (\<lambda>kv. \<not> is_object (snd kv))
               (flattenEntries (entries_of val) (newKey prefix key))"
    and "list_all (\<lambda>kv. \<not> is_object (snd kv)) acc"
  shows "list_all (\<lambda>kv. \<not> is_object (snd kv)) (fold (flatten_step prefix) es acc)"
  using assms
proof (induction es arbitrary: acc)
  case Nil
  then show ?case by simp
next
  case (Cons e es)
  obtain key val where e: "e = (key, val)" by (cases e)
  have "list_all (\<lambda>kv. \<not> is_object (snd kv)) (flatten_step prefix e acc)"
    using Cons.prems e by (auto simp: flatten_step_apply update_scalar spread_scalar)
  then show ?case using Cons by simp
qed

lemma flattenEntries_scalar:
  "list_all (\<lambda>kv. \<not> is_object (snd kv)) (flattenEntries es prefix)"
proof (induction es prefix rule: flattenEntries.induct)
  case (1 es prefix)
  show ?case
    unfolding flattenEntries_fold
    by (rule fold_step_scalar) (use 1 in auto)
qed

lemma step_empty_object: "flatten_step prefix (k, JObj []) acc = acc"
  by (simp add: flatten_step_apply flattenEntries.simps [of "[]"] spread_def)

lemma fold_update_distinct:
  "distinct (map fst acc) \<Longrightarrow> distinct (map fst (fold (\<lambda>(k, v). AList.update k v) es acc))"
  by (induction es arbitrary: acc) (auto simp: AList.distinct_update)

lemma flattenEntries_distinct: "distinct (map fst (flattenEntries es prefix))"
proof -
  have step: "distinct (map fst acc) \<Longrightarrow> distinct (map fst (flatten_step prefix e acc))" for acc e
    by (cases e) (auto simp: flatten_step_apply spread_def fold_update_distinct AList.distinct_update)
  have "distinct (map fst acc) \<Longrightarrow> distinct (map fst (fold (flatten_step prefix) es acc))" for acc
    by (induction es arbitrary: acc) (auto simp: step)
  then show ?thesis by (simp add: flattenEntries_fold)
qed

lemma update_fresh: "k \<notin> fst ` set acc \<Longrightarrow> AList.update k v acc = acc @ [(k, v)]"
  by (induction acc) auto

lemma spread_fresh: "distinct (map fst (acc @ new)) \<Longrightarrow> spread acc new = acc @ new"
proof (induction new arbitrary: acc)
  case Nil
  then show ?case by (simp add: spread_def)
next
  case (Cons e new)
  obtain k v where e: "e = (k, v)" by (cases e)
  have "k \<notin> fst ` set acc" using Cons.prems e by auto
  then have u: "AList.update k v acc = acc @ [(k, v)]" by (rule update_fresh)
  have "distinct (map fst ((acc @ [(k, v)]) @ new))" using Cons.prems e by simp
  then have "spread (acc @ [(k, v)]) new = (acc @ [(k, v)]) @ new" by (rule Cons.IH)
  then show ?case using u e by (simp add: spread_def)
qed

lemma newKey_inj: "newKey prefix x = newKey prefix y \<Longrightarrow> x = y"
  by (simp add: newKey_def split: if_splits)

lemma of_char_digit_char: "(of_char (digit_char d) :: nat) = 48 + d mod 10"
proof -
  have "list_all (\<lambda>m. (of_char (''0123456789'' ! m) :: nat) = 48 + m) [0..<10]"
    by code_simp
  moreover have "d mod 10 \<in> set [0..<10]" by simp
  ultimately have "(of_char (''0123456789'' ! (d mod 10)) :: nat) = 48 + d mod 10"
    unfolding list_all_iff by blast
  then show ?thesis by (simp add: digit_char_def)
qed

lemma read_nat_snoc: "read_nat (s @ [c]) = 10 * read_nat s + (of_char c - 48)"
  by (simp add: read_nat_def)

lemma read_show_nat: "read_nat (show_nat n) = n"
proof (induction n rule: show_nat.induct)
  case (1 n)
  show ?case
  proof (cases "n < 10")
    case True
    then show ?thesis
      by (simp add: show_nat.simps [of n] read_nat_def of_char_digit_char)
  next
    case False
    then have "read_nat (show_nat (n div 10)) = n div 10" using 1 by simp
    then show ?thesis
      using False by (simp add: show_nat.simps [of n] read_nat_snoc of_char_digit_char)
  qed
qed

lemma show_nat_inj:
  assumes "show_nat m = show_nat n"
  shows "m = n"
proof -
  have "read_nat (show_nat m) = read_nat (show_nat n)" using assms by simp
  then show ?thesis by (simp only: read_show_nat)
qed

lemma index_entries_keys: "map fst (index_entries i xs) = map show_nat [i..<i + length xs]"
proof (induction xs arbitrary: i)
  case Nil
  then show ?case by simp
next
  case (Cons x xs)
  have "[i..<i + length (x # xs)] = i # [Suc i..<Suc i + length xs]"
    by (simp add: upt_rec)
  then show ?case using Cons [of "Suc i"] by simp
qed

lemma index_entries_distinct: "distinct (map fst (index_entries i xs))"
  unfolding index_entries_keys
  by (intro distinct_map [THEN iffD2] conjI distinct_upt inj_onI) (rule show_nat_inj)

lemma flatten_scalar_entries:
  assumes "list_all (\<lambda>e. \<not> is_object (snd e)) es" "distinct (map fst es)"
  shows "flattenEntries es prefix = map (\<lambda>(k, x). (newKey prefix k, x)) es"
proof -
  have "fold (flatten_step prefix) es acc = acc @ map (\<lambda>(k, x). (newKey prefix k, x)) es"
    if "list_all (\<lambda>e. \<not> is_object (snd e)) es"
       "distinct (map fst acc @ map (newKey prefix) (map fst es))" for acc
    using that
  proof (induction es arbitrary: acc)
    case Nil
    then show ?case by simp
  next
    case (Cons e es)
    obtain k x where e: "e = (k, x)" by (cases e)
    have "newKey prefix k \<notin> fst ` set acc" using Cons.prems(2) e by auto
    then have step: "flatten_step prefix (k, x) acc = acc @ [(newKey prefix k, x)]"
      using Cons.prems(1) e by (simp add: flatten_step_apply update_fresh)
    have "fold (flatten_step prefix) es (acc @ [(newKey prefix k, x)]) =
            (acc @ [(newKey prefix k, x)]) @ map (\<lambda>(k, x). (newKey prefix k, x)) es"
      by (rule Cons.IH) (use Cons.prems e in auto)
    then show ?case using step e by simp
  qed
  moreover have "distinct (map (newKey prefix) (map fst es))"
    by (intro distinct_map [THEN iffD2] conjI assms(2) inj_onI) (rule newKey_inj)
  ultimately show ?thesis using assms(1) by (simp add: flattenEntries_fold)
qed

lemma flatten_scalar_array:
  assumes "list_all (\<lambda>x. \<not> is_object x) xs"
  shows "flattenEntries [(k, JArr xs)] prefix =
           map (\<lambda>(i, x). (newKey (newKey prefix k) i, x)) (index_entries 0 xs)"
proof -
  have "list_all (\<lambda>e. \<not> is_object (snd e)) (index_entries i xs)" for i
    using assms by (induction xs arbitrary: i) simp_all
  then have s: "list_all (\<lambda>e. \<not> is_object (snd e)) (index_entries 0 xs)" .
  have "flattenEntries (index_entries 0 xs) (newKey prefix k) =
          map (\<lambda>(i, x). (newKey (newKey prefix k) i, x)) (index_entries 0 xs)"
    using s index_entries_distinct by (rule flatten_scalar_entries)
  moreover have "distinct (map fst (flattenEntries (index_entries 0 xs) (newKey prefix k)))"
    by (rule flattenEntries_distinct)
  ultimately show ?thesis
    by (simp add: flattenEntries_fold [of "[(k, JArr xs)]"] flatten_step_apply spread_fresh)
qed

text \<open>
  C10. Every value of the map that \<^verbatim>\<open>flattenObject\<close> returns is a scalar: no object and no
  array. A property whose value is the empty object adds no entry: the document flattens
  as it does without that property.
\<close>

theorem flatten_values_scalar:
  "(flattenObject doc prefix = Inr fl \<longrightarrow> list_all (\<lambda>kv. \<not> is_object (snd kv)) fl) \<and>
   flattenObject (JObj (before @ (k, JObj []) # after)) prefix =
     flattenObject (JObj (before @ after)) prefix"
proof
  show "flattenObject doc prefix = Inr fl \<longrightarrow> list_all (\<lambda>kv. \<not> is_object (snd kv)) fl"
    by (auto simp: flattenObject_def flattenEntries_scalar)
  show "flattenObject (JObj (before @ (k, JObj []) # after)) prefix =
     flattenObject (JObj (before @ after)) prefix"
    by (simp add: flattenObject_def flattenEntries_fold step_empty_object)
qed

theorem flatten_values_scalar_witness:
  "flattenObject (JObj [(''a'', JObj []), (''b'', JObj [(''c'', JNull)])]) '''' =
     Inr [(''b.c'', JNull)] \<and>
   list_all (\<lambda>kv. \<not> is_object (snd kv)) [(''b.c'', JNull)] \<and>
   flattenObject (JObj [(''b'', JObj [(''c'', JNull)])]) '''' = Inr [(''b.c'', JNull)]"
proof -
  have e: "flattenObject (JObj [(''a'', JObj []), (''b'', JObj [(''c'', JNull)])]) '''' =
      Inr [(''b.c'', JNull)]"
    by code_simp
  show ?thesis
    using e flatten_values_scalar [of "JObj [(''a'', JObj []), (''b'', JObj [(''c'', JNull)])]"
        "''''" "[(''b.c'', JNull)]" "[]" "''a''" "[(''b'', JObj [(''c'', JNull)])]"]
    by simp
qed

text \<open>
  C3, as stated: an array is a leaf of the flattened map, under the path of its key. It is
  not: \<^verbatim>\<open>typeof\<close> of an array is \<^verbatim>\<open>'object'\<close>, and \<^verbatim>\<open>{"a": ["x", "y"]}\<close> flattens to the
  entries \<^verbatim>\<open>a.0\<close> and \<^verbatim>\<open>a.1\<close>.
\<close>

theorem array_leaf_counterexample:
  "flattenObject (JObj [(''a'', JArr [JStr ''x'', JStr ''y''])]) '''' \<noteq>
     Inr [(''a'', JArr [JStr ''x'', JStr ''y''])] \<and>
   flattenObject (JObj [(''a'', JArr [JStr ''x'', JStr ''y''])]) '''' =
     Inr [(''a.0'', JStr ''x''), (''a.1'', JStr ''y'')]"
  by code_simp

text \<open>
  C3, amended. \<^verbatim>\<open>flattenObject\<close> recurses into an array as into a key-value node whose keys
  are the decimal indices of the elements: a document flattens as it does with the array
  replaced by that node; an array of scalars under the key \<^verbatim>\<open>k\<close> gives one entry for each
  element, under \<^verbatim>\<open>k.0\<close>, \<^verbatim>\<open>k.1\<close> and so on; and no value of the flattened map is an
  array.
\<close>

theorem flatten_array_as_indexed_object:
  "flattenObject (JObj (before @ (k, JArr xs) # after)) prefix =
     flattenObject (JObj (before @ (k, JObj (index_entries 0 xs)) # after)) prefix \<and>
   (list_all (\<lambda>x. \<not> is_object x) xs \<longrightarrow>
      flattenObject (JObj [(k, JArr xs)]) prefix =
        Inr (map (\<lambda>(i, x). (newKey (newKey prefix k) i, x)) (index_entries 0 xs))) \<and>
   (flattenObject doc prefix = Inr fl \<longrightarrow> list_all (\<lambda>kv. snd kv \<noteq> JArr ys) fl)"
proof (intro conjI)
  have "flatten_step prefix (k, JArr xs) = flatten_step prefix (k, JObj (index_entries 0 xs))"
    by (rule ext) (simp add: flatten_step_apply)
  then show "flattenObject (JObj (before @ (k, JArr xs) # after)) prefix =
     flattenObject (JObj (before @ (k, JObj (index_entries 0 xs)) # after)) prefix"
    by (simp add: flattenObject_def flattenEntries_fold)
  show "list_all (\<lambda>x. \<not> is_object x) xs \<longrightarrow>
      flattenObject (JObj [(k, JArr xs)]) prefix =
        Inr (map (\<lambda>(i, x). (newKey (newKey prefix k) i, x)) (index_entries 0 xs))"
    by (simp add: flattenObject_def flatten_scalar_array)
  have "list_all (\<lambda>kv. \<not> is_object (snd kv)) (flattenEntries es prefix)" for es
    by (rule flattenEntries_scalar)
  moreover have "\<not> is_object (snd kv) \<Longrightarrow> snd kv \<noteq> JArr ys" for kv :: "string \<times> json"
    by auto
  ultimately have "list_all (\<lambda>kv. snd kv \<noteq> JArr ys) (flattenEntries es prefix)" for es
    unfolding list_all_iff by blast
  then show "flattenObject doc prefix = Inr fl \<longrightarrow> list_all (\<lambda>kv. snd kv \<noteq> JArr ys) fl"
    by (auto simp: flattenObject_def)
qed

theorem flatten_array_as_indexed_object_witness:
  "flattenObject (JObj [(''a'', JArr [JStr ''x'', JStr ''y''])]) '''' =
     Inr [(''a.0'', JStr ''x''), (''a.1'', JStr ''y'')] \<and>
   flattenObject (JObj [(''a'', JObj [(''0'', JStr ''x''), (''1'', JStr ''y'')])]) '''' =
     Inr [(''a.0'', JStr ''x''), (''a.1'', JStr ''y'')] \<and>
   list_all (\<lambda>x. \<not> is_object x) [JStr ''x'', JStr ''y''] \<and>
   map (\<lambda>(i, x). (newKey (newKey '''' ''a'') i, x)) (index_entries 0 [JStr ''x'', JStr ''y'']) =
     [(''a.0'', JStr ''x''), (''a.1'', JStr ''y'')] \<and>
   list_all (\<lambda>kv. snd kv \<noteq> JArr [JStr ''x'', JStr ''y''])
     [(''a.0'', JStr ''x''), (''a.1'', JStr ''y'')]"
proof -
  have e: "flattenObject (JObj [(''a'', JArr [JStr ''x'', JStr ''y''])]) '''' =
     Inr [(''a.0'', JStr ''x''), (''a.1'', JStr ''y'')]"
    by code_simp
  have i: "index_entries 0 [JStr ''x'', JStr ''y''] = [(''0'', JStr ''x''), (''1'', JStr ''y'')]"
    by code_simp
  have s: "list_all (\<lambda>x. \<not> is_object x) [JStr ''x'', JStr ''y'']"
    by simp
  have m: "map (\<lambda>(i, x). (newKey (newKey '''' ''a'') i, x)) [(''0'', JStr ''x''), (''1'', JStr ''y'')] =
     [(''a.0'', JStr ''x''), (''a.1'', JStr ''y'')]"
    by (simp add: newKey_def)
  have t: "flattenObject (JObj [(''a'', JObj [(''0'', JStr ''x''), (''1'', JStr ''y'')])]) '''' =
      flattenObject (JObj [(''a'', JArr [JStr ''x'', JStr ''y''])]) ''''"
    using i flatten_array_as_indexed_object [of "[]" "''a''" "[JStr ''x'', JStr ''y'']" "[]" "''''"
        "JObj [(''a'', JArr [JStr ''x'', JStr ''y''])]" "[(''a.0'', JStr ''x''), (''a.1'', JStr ''y'')]"
        "[JStr ''x'', JStr ''y'']"]
    by simp
  have l: "list_all (\<lambda>kv. snd kv \<noteq> JArr [JStr ''x'', JStr ''y''])
     [(''a.0'', JStr ''x''), (''a.1'', JStr ''y'')]"
    by simp
  show ?thesis
    unfolding i t m by (intro conjI e s l refl)
qed

section \<open>The run on the small tree\<close>

text \<open>
  C1. The line \<^verbatim>\<open>common.json:::a.b: Hello\<close> is split at its first colon, which is the first
  colon of the separator: the key of the translated entry is \<^verbatim>\<open>common.json\<close> and its text is
  \<^verbatim>\<open>::a.b: Hello\<close>. The key holds no \<^verbatim>\<open>:::\<close>, so the text is stored under the property
  \<^verbatim>\<open>undefined\<close>. The run writes \<^verbatim>\<open>en/common.json\<close>, with
  \<^verbatim>\<open>{"undefined": "::a.b: Hello"}\<close> and not \<^verbatim>\<open>{"a": {"b": "Hello"}}\<close>.
\<close>

theorem scenario_writes_undefined:
  "parseResponse ''common.json:::a.b: Hello'' = [(''common.json'', ''::a.b: Hello'')] \<and>
   translateMissingKeys scenario_capability [''locales''] ''fr'' False scenario_world =
     (None,
      \<lparr>files = scenario_files @
         [([''locales'', ''en'', ''common.json''],
           File (Doc (JObj [(''undefined'', JStr ''::a.b: Hello'')])))],
       console = [Translating 1 ''en'', Updated ''en'' 1],
       requests = [([(''common.json:::a.b'', JStr ''Bonjour'')], ''en'')]\<rparr>) \<and>
   JObj [(''undefined'', JStr ''::a.b: Hello'')] \<noteq> JObj [(''a'', JObj [(''b'', JStr ''Hello'')])]"
  by code_simp

text \<open>
  C4. An entry whose key holds no \<^verbatim>\<open>:::\<close> is not skipped: the key is taken as the path of
  a file, which is created with the text under the property \<^verbatim>\<open>undefined\<close>. Here the
  service answers \<^verbatim>\<open>greeting: Hello\<close>, and the run creates \<^verbatim>\<open>en/greeting\<close>. Every key that
  \<^verbatim>\<open>translateWithGPT\<close> returns is the text before the first colon of a line, so no key it
  returns holds \<^verbatim>\<open>:::\<close>.
\<close>

theorem malformed_key_is_written:
  "parseResponse ''greeting: Hello'' = [(''greeting'', ''Hello'')] \<and>
   js_split '':::'' ''greeting'' = [''greeting''] \<and>
   translateMissingKeys greeting_capability [''locales''] ''fr'' False scenario_world =
     (None,
      \<lparr>files = scenario_files @
         [([''locales'', ''en'', ''greeting''], File (Doc (JObj [(''undefined'', JStr ''Hello'')])))],
       console = [Translating 1 ''en'', Updated ''en'' 1],
       requests = [([(''common.json:::a.b'', JStr ''Bonjour'')], ''en'')]\<rparr>)"
  by code_simp

section \<open>Dry run\<close>

lemma translateLocale_dry:
  "translateLocale cap folderPath True item w =
     (None, w\<lparr>console := console w @ dryRunReport item\<rparr>)"
  by (cases item) (simp add: translateLocale_def dryRunReport_def log_def)

lemma runLocales_dry:
  "runLocales cap folderPath True items w =
     (None, w\<lparr>console := console w @ concat (map dryRunReport items)\<rparr>)"
  by (induction items arbitrary: w) (simp_all add: translateLocale_dry)

text \<open>
  C6. With \<^verbatim>\<open>dryRun\<close> set, a run leaves every file as it was and makes no request to the
  translation service. It fails if the missing entries cannot be computed, and otherwise
  prints the report of each locale, and does nothing else.
\<close>

theorem dry_run_only_reports:
  "translateMissingKeys cap folderPath referenceLocale True w =
     (case getAllMissingTranslations (files w) folderPath referenceLocale of
        Inl e \<Rightarrow> (Some e, w)
      | Inr allMissing \<Rightarrow> (None, w\<lparr>console := console w @ concat (map dryRunReport allMissing)\<rparr>)) \<and>
   files (snd (translateMissingKeys cap folderPath referenceLocale True w)) = files w \<and>
   requests (snd (translateMissingKeys cap folderPath referenceLocale True w)) = requests w"
  by (simp add: translateMissingKeys_def runLocales_dry split: sum.split)

theorem dry_run_only_reports_witness:
  "translateMissingKeys scenario_capability [''locales''] ''fr'' True scenario_world =
     (None, scenario_world\<lparr>console :=
        [DryRunHeader ''en'', DryRunEntries [(''common.json:::a.b'', JStr ''Bonjour'')]]\<rparr>) \<and>
   node_at (files (snd (translateMissingKeys scenario_capability [''locales''] ''fr'' True scenario_world)))
     [''locales'', ''en'', ''common.json''] = None"
proof -
  have m: "getAllMissingTranslations scenario_files [''locales''] ''fr'' =
      Inr [(''en'', [(''common.json:::a.b'', JStr ''Bonjour'')])]"
    by code_simp
  have c: "console scenario_world = []" "files scenario_world = scenario_files"
    by (simp_all add: scenario_world_def)
  have n: "node_at scenario_files [''locales'', ''en'', ''common.json''] = None"
    by code_simp
  show ?thesis
    using dry_run_only_reports [of scenario_capability "[''locales'']" "''fr''" scenario_world]
    by (simp add: m c n dryRunReport_def)
qed

section \<open>The count that is reported\<close>




section \<open>The pattern of locale names\<close>

lemma nullable_lang: "nullable r \<longleftrightarrow> [] \<in> lang r"
  by (induction r) auto

lemma lang_SeqI: "u \<in> lang a \<Longrightarrow> v \<in> lang b \<Longrightarrow> u @ v \<in> lang (Seq a b)"
  by auto

lemma lang_SeqE:
  assumes "w \<in> lang (Seq a b)"
  obtains u v where "w = u @ v" "u \<in> lang a" "v \<in> lang b"
  using assms by auto

lemma deriv_Seq_lang:
  assumes a: "\<And>w. w \<in> lang (deriv c a) \<longleftrightarrow> c # w \<in> lang a"
    and b: "\<And>w. w \<in> lang (deriv c b) \<longleftrightarrow> c # w \<in> lang b"
  shows "w \<in> lang (deriv c (Seq a b)) \<longleftrightarrow> c # w \<in> lang (Seq a b)"
proof
  assume "w \<in> lang (deriv c (Seq a b))"
  then consider "w \<in> lang (Seq (deriv c a) b)" | "nullable a" "w \<in> lang (deriv c b)"
    by (cases "nullable a") auto
  then show "c # w \<in> lang (Seq a b)"
  proof cases
    case 1
    then obtain u v where uv: "w = u @ v" "u \<in> lang (deriv c a)" "v \<in> lang b"
      by (rule lang_SeqE)
    then have "c # u \<in> lang a" using a by simp
    then have "(c # u) @ v \<in> lang (Seq a b)" using uv(3) by (rule lang_SeqI)
    then show ?thesis using uv(1) by simp
  next
    case 2
    then have "[] \<in> lang a" "c # w \<in> lang b" using b nullable_lang by auto
    then have "[] @ (c # w) \<in> lang (Seq a b)" by (rule lang_SeqI)
    then show ?thesis by simp
  qed
next
  assume "c # w \<in> lang (Seq a b)"
  then obtain u v where uv: "c # w = u @ v" "u \<in> lang a" "v \<in> lang b"
    by (rule lang_SeqE)
  show "w \<in> lang (deriv c (Seq a b))"
  proof (cases u)
    case Nil
    then have "nullable a" "w \<in> lang (deriv c b)"
      using uv b nullable_lang by auto
    then show ?thesis by simp
  next
    case (Cons x u')
    then have x: "x = c" "w = u' @ v" using uv by auto
    then have "u' \<in> lang (deriv c a)" using Cons uv a by simp
    then have "u' @ v \<in> lang (Seq (deriv c a) b)" using uv(3) by (rule lang_SeqI)
    then show ?thesis using x by (cases "nullable a") auto
  qed
qed

lemma deriv_lang: "w \<in> lang (deriv c r) \<longleftrightarrow> c # w \<in> lang r"
proof (induction r arbitrary: w)
  case (Seq a b)
  show ?case by (rule deriv_Seq_lang) (rule Seq.IH)+
qed auto

lemma matches_lang: "matches r s \<longleftrightarrow> s \<in> lang r"
  by (induction s arbitrary: r) (auto simp: nullable_lang deriv_lang)


lemma lang_Class_Seq:
  "x # t \<in> lang (Seq (Class rs) r) \<longleftrightarrow> in_class x rs \<and> t \<in> lang r"
proof
  assume "x # t \<in> lang (Seq (Class rs) r)"
  then obtain u v where uv: "x # t = u @ v" "u \<in> lang (Class rs)" "v \<in> lang r"
    by (rule lang_SeqE)
  then obtain c where "u = [c]" "in_class c rs" by auto
  then show "in_class x rs \<and> t \<in> lang r" using uv by simp
next
  assume "in_class x rs \<and> t \<in> lang r"
  then have "[x] \<in> lang (Class rs)" "t \<in> lang r" by auto
  then have "[x] @ t \<in> lang (Seq (Class rs) r)" by (rule lang_SeqI)
  then show "x # t \<in> lang (Seq (Class rs) r)" by simp
qed

lemma Nil_notin_Class_Seq: "[] \<notin> lang (Seq (Class rs) r)"
  by auto

lemma lang_Times_Class:
  "w \<in> lang (Times n (Class rs)) \<longleftrightarrow> length w = n \<and> list_all (\<lambda>c. in_class c rs) w"
proof (induction n arbitrary: w)
  case 0
  then show ?case by auto
next
  case (Suc n)
  show ?case
  proof (cases w)
    case Nil
    then show ?thesis by simp
  next
    case (Cons x t)
    show ?thesis
      unfolding Cons Times.simps lang_Class_Seq Suc.IH by auto
  qed
qed

lemma lang_Opt: "w \<in> lang (Opt r) \<longleftrightarrow> w = [] \<or> w \<in> lang r"
  by (auto simp: Opt_def)

lemma lang_AtMost_Class:
  "w \<in> lang (AtMost n (Class rs)) \<longleftrightarrow> length w \<le> n \<and> list_all (\<lambda>c. in_class c rs) w"
proof (induction n arbitrary: w)
  case 0
  then show ?case by auto
next
  case (Suc n)
  show ?case
  proof (cases w)
    case Nil
    then show ?thesis by (simp add: lang_Opt)
  next
    case (Cons x t)
    show ?thesis
      unfolding Cons AtMost.simps lang_Opt lang_Class_Seq Suc.IH by auto
  qed
qed


lemma lang_Between_Class:
  assumes "m \<le> n"
  shows "w \<in> lang (Between m n (Class rs)) \<longleftrightarrow>
           m \<le> length w \<and> length w \<le> n \<and> list_all (\<lambda>c. in_class c rs) w"
proof
  assume "w \<in> lang (Between m n (Class rs))"
  then obtain u v where uv: "w = u @ v" "u \<in> lang (Times m (Class rs))"
      "v \<in> lang (AtMost (n - m) (Class rs))"
    unfolding Between_def by (rule lang_SeqE)
  then have "length u = m" "list_all (\<lambda>c. in_class c rs) u"
      "length v \<le> n - m" "list_all (\<lambda>c. in_class c rs) v"
    by (simp_all add: lang_Times_Class lang_AtMost_Class)
  then show "m \<le> length w \<and> length w \<le> n \<and> list_all (\<lambda>c. in_class c rs) w"
    using assms uv(1) by simp
next
  assume w: "m \<le> length w \<and> length w \<le> n \<and> list_all (\<lambda>c. in_class c rs) w"
  then have "list_all (\<lambda>c. in_class c rs) (take m w @ drop m w)" by simp
  then have "list_all (\<lambda>c. in_class c rs) (take m w)" "list_all (\<lambda>c. in_class c rs) (drop m w)"
    unfolding list_all_append by simp_all
  then have "take m w \<in> lang (Times m (Class rs))" "drop m w \<in> lang (AtMost (n - m) (Class rs))"
    using w by (auto simp: lang_Times_Class lang_AtMost_Class)
  then have "take m w @ drop m w \<in> lang (Seq (Times m (Class rs)) (AtMost (n - m) (Class rs)))"
    by (rule lang_SeqI)
  then show "w \<in> lang (Between m n (Class rs))"
    by (simp add: Between_def)
qed



lemma in_class_two_chars: "in_class c [(a, a), (b, b)] \<longleftrightarrow> c = a \<or> c = b"
proof -
  have "(of_char a :: nat) \<le> of_char c \<and> (of_char c :: nat) \<le> of_char a \<longleftrightarrow> c = a" for a
    using of_char_eq_iff [of c a, where ?'a = nat] by auto
  then show ?thesis by (simp add: in_class_def)
qed

lemma lang_script: "x \<in> lang (Seq separator (Times 4 letter)) \<longleftrightarrow> is_script ''_-'' x"
proof (cases x)
  case Nil
  then show ?thesis
    using Nil_notin_Class_Seq by (simp add: separator_def is_script_def del: lang.simps)
next
  case (Cons c t)
  show ?thesis
    unfolding Cons separator_def letter_def lang_Class_Seq lang_Times_Class in_class_two_chars
    by (auto simp: is_script_def letters_def)
qed

lemma lang_region:
  "x \<in> lang (Seq separator (Alt (Times 2 letter) (Times 3 digit))) \<longleftrightarrow> is_region ''_-'' x"
proof (cases x)
  case Nil
  then show ?thesis
    using Nil_notin_Class_Seq by (simp add: separator_def is_region_def del: lang.simps)
next
  case (Cons c t)
  have "t \<in> lang (Alt (Times 2 letter) (Times 3 digit)) \<longleftrightarrow>
        (length t = 2 \<and> letters t) \<or> (length t = 3 \<and> digits t)"
    unfolding lang.simps(5) Un_iff letter_def digit_def lang_Times_Class
    by (simp add: letters_def digits_def)
  then show ?thesis
    unfolding Cons separator_def lang_Class_Seq in_class_two_chars
    by (auto simp: is_region_def)
qed

lemma is_script_length: "is_script seps x \<Longrightarrow> length x = 5"
  by (auto simp: is_script_def split: list.splits)

lemma lang_tail:
  "r \<in> lang (Seq (Opt (Seq separator (Times 4 letter)))
               (Opt (Seq separator (Alt (Times 2 letter) (Times 3 digit))))) \<longleftrightarrow>
   tag_tail ''_-'' r"
proof
  assume "r \<in> lang (Seq (Opt (Seq separator (Times 4 letter)))
               (Opt (Seq separator (Alt (Times 2 letter) (Times 3 digit)))))"
  then obtain sc rg where r: "r = sc @ rg"
      and sc: "sc \<in> lang (Opt (Seq separator (Times 4 letter)))"
      and rg: "rg \<in> lang (Opt (Seq separator (Alt (Times 2 letter) (Times 3 digit))))"
    by (rule lang_SeqE)
  from sc have sc': "sc = [] \<or> is_script ''_-'' sc" unfolding lang_Opt lang_script .
  from rg have rg': "rg = [] \<or> is_region ''_-'' rg" unfolding lang_Opt lang_region .
  show "tag_tail ''_-'' r"
  proof (cases "sc = []")
    case True
    then show ?thesis using rg' r by (auto simp: tag_tail_def)
  next
    case False
    then have s: "is_script ''_-'' sc" "length sc = 5" using sc' is_script_length by auto
    then have "take 5 r = sc" "drop 5 r = rg" using r by simp_all
    then show ?thesis using s rg' r by (auto simp: tag_tail_def)
  qed
next
  assume "tag_tail ''_-'' r"
  then consider "r = []" | "is_script ''_-'' r" | "is_region ''_-'' r"
    | "is_script ''_-'' (take 5 r)" "is_region ''_-'' (drop 5 r)"
    unfolding tag_tail_def by blast
  then obtain sc rg where r: "r = sc @ rg"
      and "sc = [] \<or> is_script ''_-'' sc" and "rg = [] \<or> is_region ''_-'' rg"
  proof cases
    case 1
    then show ?thesis using that [of "[]" "[]"] by simp
  next
    case 2
    then show ?thesis using that [of r "[]"] by simp
  next
    case 3
    then show ?thesis using that [of "[]" r] by simp
  next
    case 4
    then show ?thesis using that [of "take 5 r" "drop 5 r"] by simp
  qed
  then have "sc \<in> lang (Opt (Seq separator (Times 4 letter)))"
    "rg \<in> lang (Opt (Seq separator (Alt (Times 2 letter) (Times 3 digit))))"
    unfolding lang_Opt lang_script lang_region by simp_all
  then have "sc @ rg \<in> lang (Seq (Opt (Seq separator (Times 4 letter)))
               (Opt (Seq separator (Alt (Times 2 letter) (Times 3 digit)))))"
    by (rule lang_SeqI)
  then show "r \<in> lang (Seq (Opt (Seq separator (Times 4 letter)))
               (Opt (Seq separator (Alt (Times 2 letter) (Times 3 digit)))))"
    using r by simp
qed

lemma isLocale_iff_localeTag: "isLocale s \<longleftrightarrow> localeTag ''_-'' s"
proof
  assume "isLocale s"
  then have "s \<in> lang localePattern" by (simp add: isLocale_def matches_lang)
  then obtain l r where s: "s = l @ r" and l: "l \<in> lang (Between 2 4 letter)"
      and r: "r \<in> lang (Seq (Opt (Seq separator (Times 4 letter)))
               (Opt (Seq separator (Alt (Times 2 letter) (Times 3 digit)))))"
    unfolding localePattern_def by (rule lang_SeqE)
  from l have l': "2 \<le> length l" "length l \<le> 4" "letters l"
    by (simp_all add: letter_def lang_Between_Class letters_def)
  from r have r': "tag_tail ''_-'' r" by (simp only: lang_tail)
  have "length l \<le> length s \<and> letters (take (length l) s) \<and> tag_tail ''_-'' (drop (length l) s)"
    using s l' r' by simp
  moreover have "length l = 2 \<or> length l = 3 \<or> length l = 4" using l' by arith
  ultimately show "localeTag ''_-'' s"
    unfolding localeTag_def by auto
next
  assume "localeTag ''_-'' s"
  then obtain n where n: "n = 2 \<or> n = 3 \<or> n = 4" "n \<le> length s" "letters (take n s)"
      "tag_tail ''_-'' (drop n s)"
    unfolding localeTag_def by auto
  then have "take n s \<in> lang (Between 2 4 letter)"
    by (auto simp: letter_def lang_Between_Class letters_def)
  moreover have "drop n s \<in> lang (Seq (Opt (Seq separator (Times 4 letter)))
               (Opt (Seq separator (Alt (Times 2 letter) (Times 3 digit)))))"
    using n(4) by (simp only: lang_tail)
  ultimately have "take n s @ drop n s \<in> lang localePattern"
    unfolding localePattern_def by (rule lang_SeqI)
  then show "isLocale s" by (simp add: isLocale_def matches_lang)
qed

lemma too_many_segments: "\<not> isLocale ''xx-yy-zz''"
  by code_simp

text \<open>
  C8, as stated: the names kept are those of the subdirectories that match
  \<^verbatim>\<open>language[-script][-region]\<close>, with hyphens. The pattern also takes the underscore as a
  separator, and the listing of the root is filtered by name only: \<^verbatim>\<open>en_US\<close> is kept, and
  so is a plain file named \<^verbatim>\<open>docs\<close>, which is then reported as a locale.
\<close>

theorem locale_grammar_counterexample:
  "discoverLocales [''en_US'', ''fr''] = [''en_US'', ''fr''] \<and>
   \<not> localeTag ''-'' ''en_US'' \<and>
   getAllMissingTranslations [([''locales''], Dir), ([''locales'', ''docs''], File Unparsable)]
     [''locales''] ''fr'' = Inr [(''docs'', [])]"
  by code_simp

text \<open>
  C8, amended. Discovery keeps, in the order of the listing, exactly the names that are two
  to four letters, then optionally a hyphen or an underscore and four letters, then
  optionally a hyphen or an underscore and two letters or three digits. The name
  \<^verbatim>\<open>xx-yy-zz\<close> is never kept.
\<close>

theorem discovered_locales:
  "discoverLocales entries = filter (localeTag ''_-'') entries \<and>
   ''xx-yy-zz'' \<notin> set (discoverLocales entries)"
proof -
  have "isLocale = localeTag ''_-''"
    by (rule ext) (rule isLocale_iff_localeTag)
  then show ?thesis
    using too_many_segments by (simp add: discoverLocales_def)
qed

section \<open>Missing keys are the difference of the flattened keys\<close>

lemma all_results_map:
  "(\<And>x. x \<in> set xs \<Longrightarrow> f x = Inr (g x)) \<Longrightarrow> all_results (map f xs) = Inr (map g xs)"
  by (induction xs) (simp_all add: await_def)

lemma set_update_subset: "set (AList.update k v al) \<subseteq> insert (k, v) (set al)"
  by (induction al) auto

lemma fold_update_keys:
  "fst ` set (fold (\<lambda>(k, v). AList.update k v) es acc) = fst ` set es \<union> fst ` set acc"
proof (induction es arbitrary: acc)
  case Nil
  then show ?case by simp
next
  case (Cons e es)
  obtain k v where e: "e = (k, v)" by (cases e)
  have "fst ` set (fold (\<lambda>(k, v). AList.update k v) es (AList.update k v acc)) =
          fst ` set es \<union> fst ` set (AList.update k v acc)"
    by (rule Cons.IH)
  then show ?case unfolding AList.dom_update using e by auto
qed

lemma fold_update_subset:
  "set (fold (\<lambda>(k, v). AList.update k v) es acc) \<subseteq> set es \<union> set acc"
proof (induction es arbitrary: acc)
  case Nil
  then show ?case by simp
next
  case (Cons e es)
  obtain k v where e: "e = (k, v)" by (cases e)
  have "set (fold (\<lambda>(k, v). AList.update k v) es (AList.update k v acc))
          \<subseteq> set es \<union> set (AList.update k v acc)"
    by (rule Cons.IH)
  then show ?case using set_update_subset [of k v acc] e by auto
qed

lemma map_filter_lookup:
  assumes "distinct (map fst refFlat)"
  shows "List.map_filter (\<lambda>key. map_option (\<lambda>v. (f key, v)) (map_of refFlat key))
           (difference (map fst refFlat) ks) =
         map (\<lambda>(k, v). (f k, v)) (filter (\<lambda>(k, v). k \<notin> set ks) refFlat)"
proof -
  have "List.map_filter (\<lambda>key. map_option (\<lambda>v. (f key, v)) (map_of al key))
           (filter (\<lambda>x. x \<notin> set ks) (map fst xs)) =
         map (\<lambda>(k, v). (f k, v)) (filter (\<lambda>(k, v). k \<notin> set ks) xs)"
    if "set xs \<subseteq> set al" "distinct (map fst al)" for xs al
    using that by (induction xs) (auto simp: List.map_filter_simps)
  from this [of refFlat refFlat] assms show ?thesis by (simp add: difference_def)
qed

lemma fileMissing_readable:
  assumes "readable fs p"
    and "pathExists fs (targetOf ref loc p) \<longrightarrow> readable fs (targetOf ref loc p)"
  shows "fileMissing fs ref loc p = Inr (expectedMissing fs ref loc p)"
proof -
  obtain j where j: "readJson fs p = Inr j" "j \<noteq> JNull"
    using assms(1) by (auto simp: readable_def split: sum.splits)
  have fp: "flatAt fs p = flattenEntries (entries_of j) []"
    using j by (simp add: flatAt_def flattenObject_def)
  have d: "distinct (map fst (flattenEntries (entries_of j) []))"
    by (rule flattenEntries_distinct)
  show ?thesis
  proof (cases "pathExists fs (targetOf ref loc p)")
    case True
    then obtain t where t: "readJson fs (targetOf ref loc p) = Inr t" "t \<noteq> JNull"
      using assms(2) by (auto simp: readable_def split: sum.splits)
    have ft: "flatAt fs (targetOf ref loc p) = flattenEntries (entries_of t) []"
      using t by (simp add: flatAt_def flattenObject_def)
    show ?thesis
      using True j t d
      by (simp add: fileMissing_def Let_def await_def flattenObject_def expectedMissing_def fp ft
            map_filter_lookup targetOf_def [symmetric])
  next
    case False
    then have "readJson fs (targetOf ref loc p) = Inl ENOENT"
      by (simp add: pathExists_def readJson_def)
    then have ft: "flatAt fs (targetOf ref loc p) = []"
      by (simp add: flatAt_def)
    have e: "flattenEntries [] [] = []"
      by (simp add: flattenEntries.simps [of "[]"])
    show ?thesis
      using False j d
      by (simp add: fileMissing_def Let_def await_def flattenObject_def expectedMissing_def fp ft e
            map_filter_lookup targetOf_def [symmetric])
  qed
qed

lemma flatAt_distinct: "distinct (map fst (flatAt fs p))"
  by (auto simp: flatAt_def flattenObject_def flattenEntries_distinct split: sum.splits)

lemma expectedMissing_mem:
  "(c, v) \<in> set (expectedMissing fs ref loc p) \<longleftrightarrow>
     (\<exists>k. c = compositeKey (relative ref p) k \<and> map_of (flatAt fs p) k = Some v \<and>
          k \<notin> fst ` set (flatAt fs (targetOf ref loc p)))"
proof -
  have "map_of (flatAt fs p) k = Some v \<longleftrightarrow> (k, v) \<in> set (flatAt fs p)" for k
    using flatAt_distinct by simp
  then show ?thesis
    unfolding expectedMissing_def by auto
qed

lemma expectedMissing_keys:
  "c \<in> fst ` set (expectedMissing fs ref loc p) \<longleftrightarrow>
     (\<exists>k. c = compositeKey (relative ref p) k \<and> k \<in> fst ` set (flatAt fs p) \<and>
          k \<notin> fst ` set (flatAt fs (targetOf ref loc p)))"
proof -
  have "c \<in> fst ` set (expectedMissing fs ref loc p) \<longleftrightarrow>
        (\<exists>v. (c, v) \<in> set (expectedMissing fs ref loc p))"
    by force
  also have "\<dots> \<longleftrightarrow> (\<exists>k v. c = compositeKey (relative ref p) k \<and> map_of (flatAt fs p) k = Some v \<and>
          k \<notin> fst ` set (flatAt fs (targetOf ref loc p)))"
    unfolding expectedMissing_mem by blast
  also have "\<dots> \<longleftrightarrow> (\<exists>k. c = compositeKey (relative ref p) k \<and> k \<in> fst ` set (flatAt fs p) \<and>
          k \<notin> fst ` set (flatAt fs (targetOf ref loc p)))"
    using flatAt_distinct [of fs p] by force
  finally show ?thesis .
qed

text \<open>
  C7. When the files of the reference locale, and the files of the locale that exist, hold
  documents, \<^verbatim>\<open>getMissingTranslationsForLocale\<close> returns a map whose keys are exactly the
  composite keys \<^verbatim>\<open>relativePath:::key\<close> of the keys of each reference file that the file of
  the locale lacks; every value is the text of the reference file under such a key; and a
  reference file with no file in the locale contributes all its keys, without an error.
\<close>

theorem missing_is_difference:
  assumes "\<forall>p \<in> set (glob_json fs ref).
             readable fs p \<and> (pathExists fs (targetOf ref loc p) \<longrightarrow> readable fs (targetOf ref loc p))"
  shows "\<exists>result. getMissingTranslationsForLocale fs ref loc = Inr result \<and>
           distinct (map fst result) \<and>
           fst ` set result =
             {compositeKey (relative ref p) k | p k.
                p \<in> set (glob_json fs ref) \<and> k \<in> fst ` set (flatAt fs p) \<and>
                k \<notin> fst ` set (flatAt fs (targetOf ref loc p))} \<and>
           (\<forall>(c, v) \<in> set result. \<exists>p k.
                p \<in> set (glob_json fs ref) \<and> c = compositeKey (relative ref p) k \<and>
                map_of (flatAt fs p) k = Some v \<and>
                k \<notin> fst ` set (flatAt fs (targetOf ref loc p))) \<and>
           (\<forall>p \<in> set (glob_json fs ref). \<not> pathExists fs (targetOf ref loc p) \<longrightarrow>
                (\<forall>k \<in> fst ` set (flatAt fs p).
                   compositeKey (relative ref p) k \<in> fst ` set result))"
proof -
  let ?ps = "glob_json fs ref"
  let ?all = "concat (map (expectedMissing fs ref loc) ?ps)"
  have "all_results (map (fileMissing fs ref loc) ?ps) = Inr (map (expectedMissing fs ref loc) ?ps)"
    by (rule all_results_map) (use assms fileMissing_readable in blast)
  then have r: "getMissingTranslationsForLocale fs ref loc = Inr (fromEntries ?all)"
    by (simp add: getMissingTranslationsForLocale_def await_def)
  have d: "distinct (map fst (fromEntries ?all))"
    by (simp add: fromEntries_def fold_update_distinct)
  have "fst ` set (fromEntries ?all) = (\<Union>p\<in>set ?ps. fst ` set (expectedMissing fs ref loc p))"
    unfolding fromEntries_def fold_update_keys by auto
  also have "\<dots> = {compositeKey (relative ref p) k | p k.
                p \<in> set ?ps \<and> k \<in> fst ` set (flatAt fs p) \<and>
                k \<notin> fst ` set (flatAt fs (targetOf ref loc p))}"
    (is "?L = ?R")
  proof (rule set_eqI)
    fix c
    have "c \<in> ?L \<longleftrightarrow> (\<exists>p\<in>set ?ps. c \<in> fst ` set (expectedMissing fs ref loc p))"
      by blast
    also have "\<dots> \<longleftrightarrow> c \<in> ?R"
      unfolding expectedMissing_keys by blast
    finally show "c \<in> ?L \<longleftrightarrow> c \<in> ?R" .
  qed
  finally have k: "fst ` set (fromEntries ?all) =
             {compositeKey (relative ref p) k | p k.
                p \<in> set ?ps \<and> k \<in> fst ` set (flatAt fs p) \<and>
                k \<notin> fst ` set (flatAt fs (targetOf ref loc p))}" .
  have v: "\<exists>p k. p \<in> set ?ps \<and> c = compositeKey (relative ref p) k \<and>
                map_of (flatAt fs p) k = Some v \<and>
                k \<notin> fst ` set (flatAt fs (targetOf ref loc p))"
    if "(c, v) \<in> set (fromEntries ?all)" for c v
  proof -
    have "(c, v) \<in> set ?all"
      using that fold_update_subset [of ?all "[]"] unfolding fromEntries_def by auto
    then obtain p where "p \<in> set ?ps" "(c, v) \<in> set (expectedMissing fs ref loc p)"
      by auto
    then show ?thesis unfolding expectedMissing_mem by blast
  qed
  show ?thesis
  proof (intro exI conjI)
    show "getMissingTranslationsForLocale fs ref loc = Inr (fromEntries ?all)" by (rule r)
    show "distinct (map fst (fromEntries ?all))" by (rule d)
    show "fst ` set (fromEntries ?all) =
             {compositeKey (relative ref p) k | p k.
                p \<in> set ?ps \<and> k \<in> fst ` set (flatAt fs p) \<and>
                k \<notin> fst ` set (flatAt fs (targetOf ref loc p))}" by (rule k)
    show "\<forall>(c, v) \<in> set (fromEntries ?all). \<exists>p k.
                p \<in> set ?ps \<and> c = compositeKey (relative ref p) k \<and>
                map_of (flatAt fs p) k = Some v \<and>
                k \<notin> fst ` set (flatAt fs (targetOf ref loc p))"
      using v by blast
    show "\<forall>p \<in> set ?ps. \<not> pathExists fs (targetOf ref loc p) \<longrightarrow>
                (\<forall>k \<in> fst ` set (flatAt fs p).
                   compositeKey (relative ref p) k \<in> fst ` set (fromEntries ?all))"
    proof (intro ballI impI)
      fix p k
      assume p: "p \<in> set ?ps" and n: "\<not> pathExists fs (targetOf ref loc p)"
        and kk: "k \<in> fst ` set (flatAt fs p)"
      from n have "flatAt fs (targetOf ref loc p) = []"
        by (simp add: pathExists_def readJson_def flatAt_def)
      then have "k \<notin> fst ` set (flatAt fs (targetOf ref loc p))" by simp
      then show "compositeKey (relative ref p) k \<in> fst ` set (fromEntries ?all)"
        unfolding k using p kk by blast
    qed
  qed
qed

theorem missing_is_difference_witness:
  "glob_json partial_files [''locales'', ''fr''] =
     [[''locales'', ''fr'', ''common.json''], [''locales'', ''fr'', ''menu.json'']] \<and>
   readable partial_files [''locales'', ''fr'', ''common.json''] \<and>
   readable partial_files [''locales'', ''fr'', ''menu.json''] \<and>
   readable partial_files [''locales'', ''en'', ''common.json''] \<and>
   \<not> pathExists partial_files [''locales'', ''en'', ''menu.json''] \<and>
   getMissingTranslationsForLocale partial_files [''locales'', ''fr''] [''locales'', ''en''] =
     Inr [(''common.json:::a.b'', JStr ''Bonjour''), (''menu.json:::open'', JStr ''Ouvrir'')]"
proof -
  have h: "\<forall>p \<in> set (glob_json partial_files [''locales'', ''fr'']).
      readable partial_files p \<and>
      (pathExists partial_files (targetOf [''locales'', ''fr''] [''locales'', ''en''] p) \<longrightarrow>
       readable partial_files (targetOf [''locales'', ''fr''] [''locales'', ''en''] p))"
    by code_simp
  have g: "glob_json partial_files [''locales'', ''fr''] =
     [[''locales'', ''fr'', ''common.json''], [''locales'', ''fr'', ''menu.json'']]"
    by code_simp
  have r: "readable partial_files [''locales'', ''fr'', ''common.json'']"
      "readable partial_files [''locales'', ''fr'', ''menu.json'']"
      "readable partial_files [''locales'', ''en'', ''common.json'']"
      "\<not> pathExists partial_files [''locales'', ''en'', ''menu.json'']"
    by code_simp+
  have e: "getMissingTranslationsForLocale partial_files [''locales'', ''fr''] [''locales'', ''en''] =
     Inr [(''common.json:::a.b'', JStr ''Bonjour''), (''menu.json:::open'', JStr ''Ouvrir'')]"
    by code_simp
  show ?thesis
    using missing_is_difference [OF h] g r e by simp
qed

section \<open>The round trip of flattenObject and unflattenObject\<close>










































end
